theory Spec2Isabelle
  imports Main "HOL-Library.Word"
begin

section \<open>ECMAScript strings\<close>

text \<open>
  An ECMAScript string is a finite sequence of 16-bit code units. Every string the
  handler touches (the literals of \<^verbatim>\<open>src/main.js\<close>, the value of an environment
  variable, the rendered timestamp, the serialized body) is modelled as such a sequence.
  \<open>str\<close> embeds an ASCII literal of the source.
\<close>

type_synonym jsstring = "16 word list"

definition str :: "string \<Rightarrow> jsstring" where
  "str s = map of_char s"

section \<open>JSON.stringify on an object with string-valued properties\<close>

text \<open>
  The handler calls \<^verbatim>\<open>JSON.stringify\<close> on an object literal whose three properties hold
  strings. The definitions follow ECMA-262: \<open>QuoteJSONString\<close> (25.5.2.3) walks the code
  points of the value; the two-character escapes of its table come first, then every
  code unit below 0x20 and every unpaired surrogate becomes a \<^verbatim>\<open>\uXXXX\<close> escape
  (\<open>UnicodeEscape\<close>, lower-case hexadecimal), and everything else is copied. A leading
  surrogate followed by a trailing surrogate is one code point and is copied as the pair.
\<close>

definition hexdigit :: "nat \<Rightarrow> 16 word" where
  "hexdigit n = (if n < 10 then of_nat (48 + n) else of_nat (87 + n))"

definition UnicodeEscape :: "16 word \<Rightarrow> jsstring" where
  "UnicodeEscape c =
     [0x5C, 0x75,
      hexdigit (unat c div 4096 mod 16), hexdigit (unat c div 256 mod 16),
      hexdigit (unat c div 16 mod 16), hexdigit (unat c mod 16)]"

definition escape_table :: "16 word \<Rightarrow> 16 word option" where
  "escape_table c =
     (if c = 0x08 then Some 0x62
      else if c = 0x09 then Some 0x74
      else if c = 0x0A then Some 0x6E
      else if c = 0x0C then Some 0x66
      else if c = 0x0D then Some 0x72
      else if c = 0x22 then Some 0x22
      else if c = 0x5C then Some 0x5C
      else None)"

definition is_leading_surrogate :: "16 word \<Rightarrow> bool" where
  "is_leading_surrogate c = (0xD800 \<le> c \<and> c \<le> 0xDBFF)"

definition is_trailing_surrogate :: "16 word \<Rightarrow> bool" where
  "is_trailing_surrogate c = (0xDC00 \<le> c \<and> c \<le> 0xDFFF)"

fun quote_chars :: "jsstring \<Rightarrow> jsstring" where
  "quote_chars [] = []"
| "quote_chars (c # cs) =
     (case escape_table c of
        Some e \<Rightarrow> 0x5C # e # quote_chars cs
      | None \<Rightarrow>
          if c < 0x20 then UnicodeEscape c @ quote_chars cs
          else if is_leading_surrogate c then
            (case cs of
               [] \<Rightarrow> UnicodeEscape c
             | d # ds \<Rightarrow>
                 if is_trailing_surrogate d then c # d # quote_chars ds
                 else UnicodeEscape c @ quote_chars cs)
          else if is_trailing_surrogate c then UnicodeEscape c @ quote_chars cs
          else c # quote_chars cs)"

definition QuoteJSONString :: "jsstring \<Rightarrow> jsstring" where
  "QuoteJSONString s = 0x22 # quote_chars s @ [0x22]"

text \<open>
  \<open>SerializeJSONObject\<close> (25.5.2.5) without a gap: the members in property order, each
  the quoted key, a colon and the serialized value, joined by commas between braces.
  An object whose own keys are non-index strings enumerates them in creation order, so
  an object literal is the association list of its properties as written.
\<close>

type_synonym jsobject = "(jsstring \<times> jsstring) list"

definition member :: "jsstring \<times> jsstring \<Rightarrow> jsstring" where
  "member p = QuoteJSONString (fst p) @ 0x3A # QuoteJSONString (snd p)"

fun join_members :: "jsobject \<Rightarrow> jsstring" where
  "join_members [] = []"
| "join_members [p] = member p"
| "join_members (p # q # ps) = member p @ 0x2C # join_members (q # ps)"

definition JSON_stringify :: "jsobject \<Rightarrow> jsstring" where
  "JSON_stringify obj = 0x7B # join_members obj @ [0x7D]"

section \<open>Date: the time value and its ISO rendering\<close>

text \<open>
  ECMA-262 21.4.1. A time value is an integral number of milliseconds since the epoch,
  at most 8.64e15 in absolute value, or NaN (\<open>None\<close> here). \<open>div\<close> and \<open>mod\<close> on
  \<open>int\<close> round towards minus infinity, as the standard's floor and modulo do.
\<close>

definition msPerDay :: int where
  "msPerDay = 86400000"

definition Day :: "int \<Rightarrow> int" where
  "Day t = t div msPerDay"

definition DaysInYear :: "int \<Rightarrow> int" where
  "DaysInYear y =
     (if y mod 4 \<noteq> 0 then 365
      else if y mod 100 \<noteq> 0 then 366
      else if y mod 400 \<noteq> 0 then 365
      else 366)"

definition DayFromYear :: "int \<Rightarrow> int" where
  "DayFromYear y =
     365 * (y - 1970) + (y - 1969) div 4 - (y - 1901) div 100 + (y - 1601) div 400"

definition TimeFromYear :: "int \<Rightarrow> int" where
  "TimeFromYear y = msPerDay * DayFromYear y"

text \<open>
  The standard defines \<open>YearFromTime t\<close> as the largest \<open>y\<close> with
  \<open>TimeFromYear y \<le> t\<close>. It is computed here from the mean length of a Gregorian
  year (146097 days in 400 years), corrected by at most one year either way; that this
  is the standard's year is lemma \<open>YearFromTime_largest\<close> below.
\<close>

definition YearFromTime :: "int \<Rightarrow> int" where
  "YearFromTime t =
     (let y0 = 1970 + (400 * Day t) div 146097
      in if TimeFromYear (y0 + 1) \<le> t then y0 + 1
         else if TimeFromYear y0 \<le> t then y0
         else y0 - 1)"

definition DayWithinYear :: "int \<Rightarrow> int" where
  "DayWithinYear t = Day t - DayFromYear (YearFromTime t)"

definition InLeapYear :: "int \<Rightarrow> int" where
  "InLeapYear t = (if DaysInYear (YearFromTime t) = 366 then 1 else 0)"

definition MonthFromTime :: "int \<Rightarrow> int" where
  "MonthFromTime t =
     (let d = DayWithinYear t; l = InLeapYear t
      in if d < 31 then 0
         else if d < 59 + l then 1
         else if d < 90 + l then 2
         else if d < 120 + l then 3
         else if d < 151 + l then 4
         else if d < 181 + l then 5
         else if d < 212 + l then 6
         else if d < 243 + l then 7
         else if d < 273 + l then 8
         else if d < 304 + l then 9
         else if d < 334 + l then 10
         else 11)"

definition DateFromTime :: "int \<Rightarrow> int" where
  "DateFromTime t =
     (let d = DayWithinYear t; l = InLeapYear t; m = MonthFromTime t
      in if m = 0 then d + 1
         else if m = 1 then d - 30
         else if m = 2 then d - 58 - l
         else if m = 3 then d - 89 - l
         else if m = 4 then d - 119 - l
         else if m = 5 then d - 150 - l
         else if m = 6 then d - 180 - l
         else if m = 7 then d - 211 - l
         else if m = 8 then d - 242 - l
         else if m = 9 then d - 272 - l
         else if m = 10 then d - 303 - l
         else d - 333 - l)"

definition HourFromTime :: "int \<Rightarrow> int" where
  "HourFromTime t = (t div 3600000) mod 24"

definition MinFromTime :: "int \<Rightarrow> int" where
  "MinFromTime t = (t div 60000) mod 60"

definition SecFromTime :: "int \<Rightarrow> int" where
  "SecFromTime t = (t div 1000) mod 60"

definition msFromTime :: "int \<Rightarrow> int" where
  "msFromTime t = t mod 1000"

definition is_time_value :: "int \<Rightarrow> bool" where
  "is_time_value t = (- 8640000000000000 \<le> t \<and> t \<le> 8640000000000000)"

definition TimeClip :: "int \<Rightarrow> int option" where
  "TimeClip t = (if is_time_value t then Some t else None)"

text \<open>
  \<open>ToZeroPaddedDecimalString\<close>: the decimal digits of \<open>n\<close>, padded with zeros on the
  left up to \<open>k\<close> characters.
\<close>

definition digit :: "nat \<Rightarrow> 16 word" where
  "digit d = of_nat (48 + d)"

function decimal :: "nat \<Rightarrow> jsstring" where
  "decimal n = (if n < 10 then [digit n] else decimal (n div 10) @ [digit (n mod 10)])"
  by pat_completeness auto
termination
  by (relation "measure id") auto

declare decimal.simps [simp del]

definition pad :: "nat \<Rightarrow> nat \<Rightarrow> jsstring" where
  "pad k n = replicate (k - length (decimal n)) 0x30 @ decimal n"

datatype error = RangeError

text \<open>
  \<open>Date.prototype.toISOString\<close> (21.4.4.36): a \<open>RangeError\<close> when the time value is
  NaN, otherwise the Date Time String Format (21.4.1.32) in UTC: a four-digit year from
  0 to 9999, or else a sign and six digits, then \<^verbatim>\<open>-MM-DDTHH:mm:ss.sssZ\<close>.
\<close>

definition year_string :: "int \<Rightarrow> jsstring" where
  "year_string y =
     (if 0 \<le> y \<and> y \<le> 9999 then pad 4 (nat y)
      else if 0 \<le> y then 0x2B # pad 6 (nat y)
      else 0x2D # pad 6 (nat (- y)))"

definition iso_string :: "int \<Rightarrow> jsstring" where
  "iso_string t =
     year_string (YearFromTime t) @ 0x2D # pad 2 (nat (MonthFromTime t + 1)) @
     0x2D # pad 2 (nat (DateFromTime t)) @
     0x54 # pad 2 (nat (HourFromTime t)) @
     0x3A # pad 2 (nat (MinFromTime t)) @
     0x3A # pad 2 (nat (SecFromTime t)) @
     0x2E # pad 3 (nat (msFromTime t)) @ [0x5A]"

definition toISOString :: "int option \<Rightarrow> error + jsstring" where
  "toISOString tv = (case tv of None \<Rightarrow> Inl RangeError | Some t \<Rightarrow> Inr (iso_string t))"

section \<open>The handler\<close>

text \<open>
  \<^verbatim>\<open>src/main.js\<close>: \<open>main\<close> is an arrow function with no parameters, so whatever the
  invoking layer passes (the \<open>request\<close>) is never bound. It reads two things from its
  surroundings: \<^verbatim>\<open>process.env.STAGE\<close>, a string or \<^verbatim>\<open>undefined\<close> (the
  environment is a partial map from names to strings), and the clock, through
  \<^verbatim>\<open>new Date()\<close>: called without arguments, the constructor stores the current
  time as a time value, that is the clock reading \<open>now\<close> after \<open>TimeClip\<close>: NaN
  when the clock reads more than 8.64e15 ms away from the epoch, and then
  \<open>toISOString\<close> throws. The function is \<^verbatim>\<open>async\<close>: a throw inside it is the rejection of the returned promise,
  \<open>Inl\<close> here, and the returned object is its fulfilment, \<open>Inr\<close>.
\<close>

record response =
  statusCode :: int
  headers :: "(jsstring \<times> jsstring) list"
  body :: jsstring

type_synonym env = "jsstring \<rightharpoonup> jsstring"

text \<open>\<^verbatim>\<open>a || b\<close> where \<open>a\<close> is a string or undefined: both undefined and the empty
  string are falsy.\<close>

definition or_default :: "jsstring option \<Rightarrow> jsstring \<Rightarrow> jsstring" where
  "or_default a b = (case a of None \<Rightarrow> b | Some s \<Rightarrow> if s = [] then b else s)"

definition new_Date :: "int \<Rightarrow> int option" where
  "new_Date now = TimeClip now"

definition main :: "'request \<Rightarrow> env \<Rightarrow> int \<Rightarrow> error + response" where
  "main request process_env now =
     (case toISOString (new_Date now) of
        Inl e \<Rightarrow> Inl e
      | Inr ts \<Rightarrow>
          Inr \<lparr> statusCode = 200,
                headers =
                  [(str ''Content-Type'', str ''application/json''),
                   (str ''Access-Control-Allow-Origin'', str ''*''),
                   (str ''Access-Control-Allow-Headers'', str ''Content-Type''),
                   (str ''Access-Control-Allow-Methods'', str ''OPTIONS,POST,GET'')],
                body =
                  JSON_stringify
                    [(str ''message'',
                      str ''Hello World from serverless starter template! Jayvee''),
                     (str ''timestamp'', ts),
                     (str ''stage'', or_default (process_env (str ''STAGE'')) (str ''dev''))] \<rparr>)"

section \<open>JSON.parse on an object with string-valued members\<close>

text \<open>
  What a client does with the body: \<^verbatim>\<open>JSON.parse\<close>, restricted to the kind of text
  the handler produces, a JSON object whose member values are strings; any other text is
  \<open>None\<close> here. The grammar is that of ECMA-404: white space around the tokens, a string
  between double quotes with no raw code unit below 0x20, the escapes
  \<^verbatim>\<open>\" \\ \/ \b \f \n \r \t\<close> and \<^verbatim>\<open>\uXXXX\<close> with hexadecimal digits of either case.
  The result lists the members in the order read; \<open>get_field\<close> reads a property of the
  resulting object, where the last of several members with one name wins.
\<close>

definition is_ws :: "16 word \<Rightarrow> bool" where
  "is_ws c = (c = 0x09 \<or> c = 0x0A \<or> c = 0x0D \<or> c = 0x20)"

definition skip_ws :: "jsstring \<Rightarrow> jsstring" where
  "skip_ws s = dropWhile is_ws s"

definition hexval :: "16 word \<Rightarrow> nat option" where
  "hexval c =
     (if 0x30 \<le> c \<and> c \<le> 0x39 then Some (unat c - 48)
      else if 0x61 \<le> c \<and> c \<le> 0x66 then Some (unat c - 87)
      else if 0x41 \<le> c \<and> c \<le> 0x46 then Some (unat c - 55)
      else None)"

definition hex4 :: "jsstring \<Rightarrow> 16 word option" where
  "hex4 s =
     (case map hexval s of
        [Some a, Some b, Some c, Some d] \<Rightarrow> Some (of_nat (((a * 16 + b) * 16 + c) * 16 + d))
      | _ \<Rightarrow> None)"

definition unescape :: "16 word \<Rightarrow> 16 word option" where
  "unescape e =
     (if e = 0x22 then Some 0x22
      else if e = 0x5C then Some 0x5C
      else if e = 0x2F then Some 0x2F
      else if e = 0x62 then Some 0x08
      else if e = 0x66 then Some 0x0C
      else if e = 0x6E then Some 0x0A
      else if e = 0x72 then Some 0x0D
      else if e = 0x74 then Some 0x09
      else None)"

fun parse_chars :: "jsstring \<Rightarrow> (jsstring \<times> jsstring) option" where
  "parse_chars [] = None"
| "parse_chars (c # cs) =
     (if c = 0x22 then Some ([], cs)
      else if c = 0x5C then
        (case cs of
           [] \<Rightarrow> None
         | e # r \<Rightarrow>
             if e = 0x75 then
               (case hex4 (take 4 r) of
                  None \<Rightarrow> None
                | Some w \<Rightarrow>
                    (case parse_chars (drop 4 r) of
                       None \<Rightarrow> None
                     | Some (v, rest) \<Rightarrow> Some (w # v, rest)))
             else
               (case unescape e of
                  None \<Rightarrow> None
                | Some w \<Rightarrow>
                    (case parse_chars r of
                       None \<Rightarrow> None
                     | Some (v, rest) \<Rightarrow> Some (w # v, rest))))
      else if c < 0x20 then None
      else
        (case parse_chars cs of
           None \<Rightarrow> None
         | Some (v, rest) \<Rightarrow> Some (c # v, rest)))"

definition parse_string :: "jsstring \<Rightarrow> (jsstring \<times> jsstring) option" where
  "parse_string s = (case s of [] \<Rightarrow> None | c # r \<Rightarrow> if c = 0x22 then parse_chars r else None)"

lemma parse_chars_length: "parse_chars s = Some (v, r) \<Longrightarrow> length r < length s"
proof (induction s arbitrary: v r rule: parse_chars.induct)
  case 1
  then show ?case by simp
next
  case (2 c cs)
  show ?case
  proof (cases "c = 0x22")
    case True
    with "2.prems" show ?thesis by auto
  next
    case nq: False
    show ?thesis
    proof (cases "c = 0x5C")
      case True
      then obtain e r0 where cs: "cs = e # r0"
        using "2.prems" nq by (cases cs) auto
      show ?thesis
      proof (cases "e = 0x75")
        case eu: True
        from "2.prems" nq True cs eu obtain w v' where
          h: "hex4 (take 4 r0) = Some w" and p: "parse_chars (drop 4 r0) = Some (v', r)"
          by (auto split: option.splits)
        from "2.IH"(1)[OF nq True cs eu h p] show ?thesis using cs by simp
      next
        case eu: False
        from "2.prems" nq True cs eu obtain w v' where
          h: "unescape e = Some w" and p: "parse_chars r0 = Some (v', r)"
          by (auto split: option.splits)
        from "2.IH"(2)[OF nq True cs eu h p] show ?thesis using cs by simp
      qed
    next
      case nb: False
      from "2.prems" nq nb obtain v' where lt: "\<not> c < 0x20" and p: "parse_chars cs = Some (v', r)"
        by (auto split: option.splits if_splits)
      from "2.IH"(3)[OF nq nb lt p] show ?thesis by simp
    qed
  qed
qed

lemma parse_string_length: "parse_string s = Some (v, r) \<Longrightarrow> length r < length s"
  by (auto simp: parse_string_def split: list.splits if_splits dest: parse_chars_length)

lemma skip_ws_length: "length (skip_ws s) \<le> length s"
  by (simp add: skip_ws_def length_dropWhile_le)

function parse_members :: "jsstring \<Rightarrow> (jsobject \<times> jsstring) option" where
  "parse_members s =
     (case parse_string (skip_ws s) of
        None \<Rightarrow> None
      | Some (k, r1) \<Rightarrow>
          (case skip_ws r1 of
             [] \<Rightarrow> None
           | c # r2 \<Rightarrow>
               if c \<noteq> 0x3A then None
               else
                 (case parse_string (skip_ws r2) of
                    None \<Rightarrow> None
                  | Some (v, r3) \<Rightarrow>
                      (case skip_ws r3 of
                         [] \<Rightarrow> None
                       | d # r4 \<Rightarrow>
                           if d = 0x7D then Some ([(k, v)], r4)
                           else if d = 0x2C then
                             (case parse_members r4 of
                                None \<Rightarrow> None
                              | Some (ms, r5) \<Rightarrow> Some ((k, v) # ms, r5))
                           else None))))"
  by pat_completeness auto
termination
proof (relation "measure length", goal_cases)
  case 1
  show ?case by simp
next
  case (2 s x2 k r1 c r2 x2a v r3 d r4)
  have a: "length r1 < length (skip_ws s)" using 2 by (auto dest: parse_string_length)
  have b: "length r2 < length (skip_ws r1)" using 2 by simp
  have c: "length r3 < length (skip_ws r2)" using 2 by (auto dest: parse_string_length)
  have d: "length r4 < length (skip_ws r3)" using 2 by simp
  from a b c d skip_ws_length[of s] skip_ws_length[of r1] skip_ws_length[of r2] skip_ws_length[of r3]
  show ?case by simp
qed

declare parse_members.simps [simp del]

definition JSON_parse :: "jsstring \<Rightarrow> jsobject option" where
  "JSON_parse s =
     (case skip_ws s of
        [] \<Rightarrow> None
      | c # r \<Rightarrow>
          if c \<noteq> 0x7B then None
          else
            (case skip_ws r of
               [] \<Rightarrow> None
             | d # r' \<Rightarrow>
                 if d = 0x7D then (if skip_ws r' = [] then Some [] else None)
                 else
                   (case parse_members r of
                      None \<Rightarrow> None
                    | Some (ms, r'') \<Rightarrow> if skip_ws r'' = [] then Some ms else None)))"

definition get_field :: "jsobject \<Rightarrow> jsstring \<Rightarrow> jsstring option" where
  "get_field obj k = map_of (rev obj) k"

text \<open>The body of an invocation's result decoded, and one field of it.\<close>

definition decoded :: "error + response \<Rightarrow> jsobject option" where
  "decoded res = (case res of Inl e \<Rightarrow> None | Inr r \<Rightarrow> JSON_parse (body r))"

definition decoded_field :: "error + response \<Rightarrow> jsstring \<Rightarrow> jsstring option" where
  "decoded_field res k = (case decoded res of None \<Rightarrow> None | Some obj \<Rightarrow> get_field obj k)"

section \<open>Date.parse on the Date Time String Format\<close>

text \<open>
  What a client does with the \<open>timestamp\<close> field: \<^verbatim>\<open>Date.parse\<close>, restricted to the
  complete form of the Date Time String Format (21.4.1.32) in UTC,
  \<^verbatim>\<open>YYYY-MM-DDTHH:mm:ss.sssZ\<close> or \<^verbatim>\<open>+YYYYYY-...\<close> / \<^verbatim>\<open>-YYYYYY-...\<close>; any other text
  is \<open>None\<close> (NaN). The fields are bounded as the format says (month 01 to 12, day 01
  to 31, hour 00 to 24 with 24:00:00.000 only, minute and second 00 to 59, year -000000
  refused), then combined by \<open>MakeDay\<close>, \<open>MakeTime\<close>, \<open>MakeDate\<close> and \<open>TimeClip\<close>
  (21.4.1.28 to 21.4.1.31). \<open>MakeDay\<close> is the day number of the first of the month, which
  the standard describes by \<open>YearFromTime\<close>, \<open>MonthFromTime\<close> and \<open>DateFromTime\<close>, plus
  the date minus one.
\<close>

definition digit_val :: "16 word \<Rightarrow> nat option" where
  "digit_val c = (if 0x30 \<le> c \<and> c \<le> 0x39 then Some (unat c - 48) else None)"

fun parse_digits :: "nat \<Rightarrow> jsstring \<Rightarrow> nat option" where
  "parse_digits a [] = Some a"
| "parse_digits a (c # cs) =
     (case digit_val c of None \<Rightarrow> None | Some d \<Rightarrow> parse_digits (a * 10 + d) cs)"

definition days_before_month :: "int \<Rightarrow> int \<Rightarrow> int" where
  "days_before_month m l =
     (if m = 0 then 0
      else if m = 1 then 31
      else if m = 2 then 59 + l
      else if m = 3 then 90 + l
      else if m = 4 then 120 + l
      else if m = 5 then 151 + l
      else if m = 6 then 181 + l
      else if m = 7 then 212 + l
      else if m = 8 then 243 + l
      else if m = 9 then 273 + l
      else if m = 10 then 304 + l
      else 334 + l)"

definition MakeDay :: "int \<Rightarrow> int \<Rightarrow> int \<Rightarrow> int" where
  "MakeDay year month date =
     (let ym = year + month div 12; mn = month mod 12
      in DayFromYear ym + days_before_month mn (if DaysInYear ym = 366 then 1 else 0)
         + date - 1)"

definition MakeTime :: "int \<Rightarrow> int \<Rightarrow> int \<Rightarrow> int \<Rightarrow> int" where
  "MakeTime h m s ms = h * 3600000 + m * 60000 + s * 1000 + ms"

definition MakeDate :: "int \<Rightarrow> int \<Rightarrow> int" where
  "MakeDate day time = day * msPerDay + time"

definition parse_date_time :: "bool \<Rightarrow> jsstring \<Rightarrow> jsstring \<Rightarrow> int option" where
  "parse_date_time neg ys rest =
     (if length rest = 20 \<and> rest ! 0 = 0x2D \<and> rest ! 3 = 0x2D \<and> rest ! 6 = 0x54 \<and>
         rest ! 9 = 0x3A \<and> rest ! 12 = 0x3A \<and> rest ! 15 = 0x2E \<and> rest ! 19 = 0x5A
      then
        (case those
                [parse_digits 0 ys,
                 parse_digits 0 (take 2 (drop 1 rest)),
                 parse_digits 0 (take 2 (drop 4 rest)),
                 parse_digits 0 (take 2 (drop 7 rest)),
                 parse_digits 0 (take 2 (drop 10 rest)),
                 parse_digits 0 (take 2 (drop 13 rest)),
                 parse_digits 0 (take 3 (drop 16 rest))] of
           Some [y, mo, d, h, mi, s, ms] \<Rightarrow>
             if 1 \<le> mo \<and> mo \<le> 12 \<and> 1 \<le> d \<and> d \<le> 31 \<and>
                (h < 24 \<or> (h = 24 \<and> mi = 0 \<and> s = 0 \<and> ms = 0)) \<and>
                mi \<le> 59 \<and> s \<le> 59 \<and> \<not> (neg \<and> y = 0)
             then TimeClip
                    (MakeDate
                       (MakeDay (if neg then - int y else int y) (int mo - 1) (int d))
                       (MakeTime (int h) (int mi) (int s) (int ms)))
             else None
         | _ \<Rightarrow> None)
      else None)"

definition Date_parse :: "jsstring \<Rightarrow> int option" where
  "Date_parse s =
     (case s of
        [] \<Rightarrow> None
      | c # r \<Rightarrow>
          if c = 0x2B \<or> c = 0x2D then
            (if length r < 6 then None else parse_date_time (c = 0x2D) (take 6 r) (drop 6 r))
          else if length s < 4 then None
          else parse_date_time False (take 4 s) (drop 4 s))"

section \<open>Decoding inverts serialization\<close>

text \<open>\<open>push c\<close> puts a decoded code unit in front of the rest of a decoded string.\<close>

definition push :: "16 word \<Rightarrow> (jsstring \<times> jsstring) option \<Rightarrow> (jsstring \<times> jsstring) option" where
  "push c res = (case res of None \<Rightarrow> None | Some (v, r) \<Rightarrow> Some (c # v, r))"

lemma hexval_hexdigit: "n < 16 \<Longrightarrow> hexval (hexdigit n) = Some n"
proof -
  assume "n < 16"
  then have "n \<in> {0, 1, 2, 3, 4, 5, 6, 7, 8, 9, 10, 11, 12, 13, 14, 15}"
    by simp arith
  then show ?thesis
    by (elim insertE emptyE) (simp_all add: hexval_def hexdigit_def)
qed

lemma hex_decompose:
  fixes n :: nat
  shows "((n div 4096 mod 16 * 16 + n div 256 mod 16) * 16 + n div 16 mod 16) * 16 + n mod 16
         = n mod 65536"
proof -
  have a: "n mod 256 = 16 * (n div 16 mod 16) + n mod 16"
    using mod_mult2_eq[of n 16 16] by simp
  have b: "n mod 4096 = 256 * (n div 256 mod 16) + n mod 256"
    using mod_mult2_eq[of n 256 16] by simp
  have c: "n mod 65536 = 4096 * (n div 4096 mod 16) + n mod 4096"
    using mod_mult2_eq[of n 4096 16] by simp
  show ?thesis unfolding a b c by simp
qed

lemma hex4_hexdigits:
  "hex4 [hexdigit (unat c div 4096 mod 16), hexdigit (unat c div 256 mod 16),
         hexdigit (unat c div 16 mod 16), hexdigit (unat c mod 16)] = Some c"
proof -
  have lt: "unat c < 65536" using unsigned_less[of c] by simp
  have "hex4 [hexdigit (unat c div 4096 mod 16), hexdigit (unat c div 256 mod 16),
         hexdigit (unat c div 16 mod 16), hexdigit (unat c mod 16)]
        = Some (of_nat (((unat c div 4096 mod 16 * 16 + unat c div 256 mod 16) * 16
            + unat c div 16 mod 16) * 16 + unat c mod 16))"
    unfolding hex4_def by (simp only: list.map hexval_hexdigit mod_less_divisor zero_less_numeral list.case option.case)
  also have "\<dots> = Some (of_nat (unat c))"
    unfolding hex_decompose using lt by simp
  finally show ?thesis by simp
qed


lemma parse_chars_UnicodeEscape:
  "parse_chars (UnicodeEscape c @ xs) = push c (parse_chars xs)"
  by (simp add: UnicodeEscape_def hex4_hexdigits push_def split: option.splits)

lemma parse_chars_escape:
  "escape_table c = Some e \<Longrightarrow> parse_chars (0x5C # e # xs) = push c (parse_chars xs)"
  by (auto simp add: escape_table_def unescape_def push_def split: if_splits option.splits)

lemma escape_table_None: "escape_table c = None \<Longrightarrow> c \<noteq> 0x22 \<and> c \<noteq> 0x5C"
  by (auto simp add: escape_table_def split: if_splits)

lemma parse_chars_plain:
  "escape_table c = None \<Longrightarrow> \<not> c < 0x20 \<Longrightarrow> parse_chars (c # xs) = push c (parse_chars xs)"
  by (auto simp add: push_def dest: escape_table_None split: option.splits)

lemma trailing_plain:
  "is_trailing_surrogate d \<Longrightarrow> escape_table d = None \<and> \<not> d < 0x20"
  by (auto simp add: is_trailing_surrogate_def escape_table_def word_le_nat_alt word_less_nat_alt)

lemma parse_chars_quote_chars:
  "parse_chars (quote_chars s @ 0x22 # rest) = Some (s, rest)"
proof (induction s rule: quote_chars.induct)
  case 1
  show ?case by simp
next
  case (2 c cs)
  show ?case
  proof (cases "escape_table c")
    case (Some e)
    with "2.IH" show ?thesis
      by (simp add: parse_chars_escape push_def del: parse_chars.simps)
  next
    case None
    show ?thesis
    proof (cases "c < 0x20")
      case True
      with None "2.IH" show ?thesis
        by (simp add: parse_chars_UnicodeEscape push_def del: parse_chars.simps)
    next
      case ge: False
      show ?thesis
      proof (cases "is_leading_surrogate c")
        case lead: True
        show ?thesis
        proof (cases cs)
          case Nil
          have "parse_chars (0x22 # rest) = Some ([], rest)" by simp
          with Nil None ge lead show ?thesis
            by (simp add: parse_chars_UnicodeEscape push_def del: parse_chars.simps)
        next
          case (Cons d ds)
          show ?thesis
          proof (cases "is_trailing_surrogate d")
            case True
            with "2.IH" None ge lead Cons
            have "parse_chars (quote_chars ds @ 0x22 # rest) = Some (ds, rest)"
              by simp
            with None ge lead Cons True trailing_plain[OF True] show ?thesis
              by (simp add: parse_chars_plain push_def del: parse_chars.simps)
          next
            case False
            with "2.IH" None ge lead Cons
            have "parse_chars (quote_chars cs @ 0x22 # rest) = Some (cs, rest)"
              by simp
            with None ge lead Cons False show ?thesis
              by (simp add: parse_chars_UnicodeEscape push_def del: parse_chars.simps)
          qed
        qed
      next
        case nl: False
        with "2.IH" None ge
        have IH: "parse_chars (quote_chars cs @ 0x22 # rest) = Some (cs, rest)"
          by (cases "is_trailing_surrogate c") simp_all
        show ?thesis
        proof (cases "is_trailing_surrogate c")
          case True
          with IH None ge nl show ?thesis
            by (simp add: parse_chars_UnicodeEscape push_def del: parse_chars.simps)
        next
          case False
          with IH None ge nl show ?thesis
            by (simp add: parse_chars_plain push_def del: parse_chars.simps)
        qed
      qed
    qed
  qed
qed

lemma parse_string_Quote:
  "parse_string (QuoteJSONString s @ rest) = Some (s, rest)"
  by (simp add: parse_string_def QuoteJSONString_def parse_chars_quote_chars del: parse_chars.simps)

lemma skip_ws_quote [simp]: "skip_ws (QuoteJSONString s @ rest) = QuoteJSONString s @ rest"
  by (simp add: skip_ws_def QuoteJSONString_def is_ws_def)

lemma skip_ws_Cons: "\<not> is_ws c \<Longrightarrow> skip_ws (c # r) = c # r"
  by (simp add: skip_ws_def)

lemma parse_members_join:
  "ps \<noteq> [] \<Longrightarrow> parse_members (join_members ps @ 0x7D # rest) = Some (ps, rest)"
proof (induction ps rule: join_members.induct)
  case 1
  then show ?case by simp
next
  case (2 p)
  show ?case
    by (subst parse_members.simps)
       (simp add: member_def parse_string_Quote skip_ws_Cons is_ws_def)
next
  case (3 p q ps)
  then have IH: "parse_members (join_members (q # ps) @ 0x7D # rest) = Some (q # ps, rest)"
    by simp
  show ?case
    by (subst parse_members.simps)
       (simp add: member_def parse_string_Quote skip_ws_Cons is_ws_def IH)
qed

lemma join_members_Cons:
  "\<exists>xs. join_members (p # ps) = 0x22 # xs"
  by (cases ps) (simp_all add: member_def QuoteJSONString_def)

lemma JSON_parse_stringify: "JSON_parse (JSON_stringify obj) = Some obj"
proof (cases obj)
  case Nil
  then show ?thesis
    by (simp add: JSON_parse_def JSON_stringify_def skip_ws_def is_ws_def)
next
  case (Cons p ps)
  obtain xs where xs: "join_members obj = 0x22 # xs"
    using join_members_Cons[of p ps] Cons by auto
  have pm: "parse_members (join_members obj @ 0x7D # []) = Some (obj, [])"
    using parse_members_join[of obj "[]"] Cons by simp
  have "JSON_parse (0x7B # join_members obj @ [0x7D]) = Some obj"
    unfolding JSON_parse_def using pm
    by (simp add: xs skip_ws_def is_ws_def)
  then show ?thesis by (simp add: JSON_stringify_def)
qed

section \<open>The calendar of the time value\<close>

text \<open>
  \<open>fixed k n\<close> is the numeral of exactly \<open>k\<close> digits for \<open>n\<close> below \<open>10 ^ k\<close>; the
  padded decimal of such an \<open>n\<close> is this numeral (lemma \<open>pad_fixed\<close>).
\<close>

fun fixed :: "nat \<Rightarrow> nat \<Rightarrow> jsstring" where
  "fixed 0 n = []"
| "fixed (Suc k) n = fixed k (n div 10) @ [digit (n mod 10)]"

lemma div_bounds:
  fixes a k :: int
  assumes "0 < k"
  shows "k * (a div k) \<le> a \<and> a - (k - 1) \<le> k * (a div k)"
proof -
  have "a = k * (a div k) + a mod k" by simp
  moreover have "0 \<le> a mod k" "a mod k < k" using assms by simp_all
  ultimately show ?thesis by linarith
qed

lemma succ_div:
  fixes a k :: int
  assumes k: "0 < k"
  shows "(a + 1) div k = a div k + (if (a + 1) mod k = 0 then 1 else 0)"
proof (cases "(a + 1) mod k = 0")
  case True
  have "a + 1 = k * ((a + 1) div k) + (a + 1) mod k" by simp
  with True have "a = k * ((a + 1) div k - 1) + (k - 1)"
    by (simp add: algebra_simps)
  then have "a div k = (a + 1) div k - 1"
    by (rule int_div_pos_eq) (use k in simp_all)
  with True show ?thesis by simp
next
  case False
  have r: "0 \<le> (a + 1) mod k" "(a + 1) mod k < k" using k by simp_all
  have "a + 1 = k * ((a + 1) div k) + (a + 1) mod k" by simp
  then have "a = k * ((a + 1) div k) + ((a + 1) mod k - 1)"
    by linarith
  then have "a div k = (a + 1) div k"
    by (rule int_div_pos_eq) (use r False in simp_all)
  with False show ?thesis by simp
qed

lemma mod_shift:
  fixes y k c :: int
  shows "(y - k * c) mod k = y mod k"
proof -
  have "(y - k * c) mod k = (y + k * (- c)) mod k" by simp
  also have "\<dots> = y mod k" by (rule mod_mult_self2)
  finally show ?thesis .
qed

lemma leap_mods:
  fixes y :: int
  shows "(y - 1968) mod 4 = y mod 4" "(y - 1900) mod 100 = y mod 100"
    "(y - 1600) mod 400 = y mod 400"
  using mod_shift[of y 4 492] mod_shift[of y 100 19] mod_shift[of y 400 4] by simp_all

lemma mod_100_4: "(y::int) mod 100 = 0 \<Longrightarrow> y mod 4 = 0"
  using mod_mod_cancel[of 4 100 y] by simp

lemma mod_400_100: "(y::int) mod 400 = 0 \<Longrightarrow> y mod 100 = 0"
  using mod_mod_cancel[of 100 400 y] by simp

lemma DayFromYear_step: "DayFromYear (y + 1) = DayFromYear y + DaysInYear y"
proof -
  have a: "(y + 1 - 1969) div 4 = (y - 1969) div 4 + (if y mod 4 = 0 then 1 else 0)"
    using succ_div[of 4 "y - 1969"] leap_mods(1)[of y] by (simp add: algebra_simps)
  have b: "(y + 1 - 1901) div 100 = (y - 1901) div 100 + (if y mod 100 = 0 then 1 else 0)"
    using succ_div[of 100 "y - 1901"] leap_mods(2)[of y] by (simp add: algebra_simps)
  have c: "(y + 1 - 1601) div 400 = (y - 1601) div 400 + (if y mod 400 = 0 then 1 else 0)"
    using succ_div[of 400 "y - 1601"] leap_mods(3)[of y] by (simp add: algebra_simps)
  show ?thesis
    unfolding DayFromYear_def DaysInYear_def a b c
    using mod_100_4[of y] mod_400_100[of y] by auto
qed

lemma DayFromYear_bounds:
  "146097 * y - 287811596 \<le> 400 * DayFromYear y \<and>
   400 * DayFromYear y \<le> 146097 * y - 287810501"
proof -
  define a where "a = (y - 1969) div 4"
  define b where "b = (y - 1901) div 100"
  define c where "c = (y - 1601) div 400"
  have A: "4 * a \<le> y - 1969" "y - 1972 \<le> 4 * a"
    using div_bounds[of 4 "y - 1969"] by (simp_all add: a_def)
  have B: "100 * b \<le> y - 1901" "y - 2000 \<le> 100 * b"
    using div_bounds[of 100 "y - 1901"] by (simp_all add: b_def)
  have C: "400 * c \<le> y - 1601" "y - 2000 \<le> 400 * c"
    using div_bounds[of 400 "y - 1601"] by (simp_all add: c_def)
  have D: "400 * DayFromYear y = 146000 * y - 287620000 + 400 * a - 400 * b + 400 * c"
    by (simp add: DayFromYear_def a_def b_def c_def)
  show ?thesis unfolding D using A B C by linarith
qed

lemma TimeFromYear_le: "TimeFromYear y \<le> t \<longleftrightarrow> DayFromYear y \<le> Day t"
proof -
  define d where "d = t div 86400000"
  have A: "86400000 * d \<le> t" "t - 86399999 \<le> 86400000 * d"
    using div_bounds[of 86400000 t] by (simp_all add: d_def)
  have "86400000 * DayFromYear y \<le> t \<longleftrightarrow> DayFromYear y \<le> d"
    using A by linarith
  then show ?thesis by (simp add: TimeFromYear_def Day_def msPerDay_def d_def)
qed

lemma YearFromTime_bounds:
  "DayFromYear (YearFromTime t) \<le> Day t \<and> Day t < DayFromYear (YearFromTime t + 1)"
proof -
  define y0 where "y0 = 1970 + (400 * Day t) div 146097"
  define q where "q = (400 * Day t) div 146097"
  have e: "146097 * q \<le> 400 * Day t" "400 * Day t - 146096 \<le> 146097 * q"
    using div_bounds[of 146097 "400 * Day t"] by (simp_all add: q_def)
  have y0: "y0 = q + 1970" by (simp add: y0_def q_def)
  define y1 where "y1 = y0 - 1"
  define y2 where "y2 = y0 + 2"
  have "400 * DayFromYear y1 \<le> 146097 * y1 - 287810501"
    using DayFromYear_bounds[of y1] by simp
  moreover have "y1 = q + 1969" by (simp add: y1_def y0)
  ultimately have lo: "DayFromYear (y0 - 1) \<le> Day t"
    using e unfolding y1_def[symmetric] by linarith
  have "146097 * y2 - 287811596 \<le> 400 * DayFromYear y2"
    using DayFromYear_bounds[of y2] by simp
  moreover have "y2 = q + 1972" by (simp add: y2_def y0)
  ultimately have hi: "Day t < DayFromYear (y0 + 2)"
    using e unfolding y2_def[symmetric] by linarith
  have Y: "YearFromTime t =
      (if DayFromYear (y0 + 1) \<le> Day t then y0 + 1
       else if DayFromYear y0 \<le> Day t then y0 else y0 - 1)"
    by (simp add: YearFromTime_def Let_def TimeFromYear_le y0_def)
  show ?thesis unfolding Y using lo hi by (auto simp add: algebra_simps)
qed


lemma DaysInYear_cases: "DaysInYear y = 365 \<or> DaysInYear y = 366"
  by (simp add: DaysInYear_def)

lemma DayFromYear_mono: "y \<le> y' \<Longrightarrow> DayFromYear y \<le> DayFromYear y'"
proof (induction y' rule: int_ge_induct)
  case base
  show ?case by simp
next
  case (step i)
  then show ?case
    using DayFromYear_step[of i] DaysInYear_cases[of i] by linarith
qed

lemma YearFromTime_largest: "TimeFromYear y \<le> t \<longleftrightarrow> y \<le> YearFromTime t"
proof
  assume a: "TimeFromYear y \<le> t"
  show "y \<le> YearFromTime t"
  proof (rule ccontr)
    assume "\<not> y \<le> YearFromTime t"
    then have "YearFromTime t + 1 \<le> y" by simp
    then have "DayFromYear (YearFromTime t + 1) \<le> DayFromYear y" by (rule DayFromYear_mono)
    with YearFromTime_bounds[of t] a show False by (simp add: TimeFromYear_le)
  qed
next
  assume "y \<le> YearFromTime t"
  then have "DayFromYear y \<le> DayFromYear (YearFromTime t)" by (rule DayFromYear_mono)
  with YearFromTime_bounds[of t] show "TimeFromYear y \<le> t" by (simp add: TimeFromYear_le)
qed

lemma InLeapYear_cases: "InLeapYear t = 0 \<or> InLeapYear t = 1"
  by (simp add: InLeapYear_def)

lemma DayWithinYear_bounds:
  "0 \<le> DayWithinYear t \<and> DayWithinYear t < 365 + InLeapYear t"
proof -
  have "DaysInYear (YearFromTime t) = 365 + InLeapYear t"
    using DaysInYear_cases[of "YearFromTime t"] by (auto simp add: InLeapYear_def)
  then show ?thesis
    using YearFromTime_bounds[of t] DayFromYear_step[of "YearFromTime t"]
    by (simp add: DayWithinYear_def)
qed

lemma MonthFromTime_bounds: "0 \<le> MonthFromTime t \<and> MonthFromTime t \<le> 11"
  by (simp add: MonthFromTime_def Let_def)

lemma DateFromTime_bounds: "1 \<le> DateFromTime t \<and> DateFromTime t \<le> 31"
proof -
  define d where "d = DayWithinYear t"
  define l where "l = InLeapYear t"
  have b: "0 \<le> d" "d < 365 + l" "l = 0 \<or> l = 1"
    using DayWithinYear_bounds[of t] InLeapYear_cases[of t] by (simp_all add: d_def l_def)
  have M: "MonthFromTime t =
     (if d < 31 then 0 else if d < 59 + l then 1 else if d < 90 + l then 2
      else if d < 120 + l then 3 else if d < 151 + l then 4 else if d < 181 + l then 5
      else if d < 212 + l then 6 else if d < 243 + l then 7 else if d < 273 + l then 8
      else if d < 304 + l then 9 else if d < 334 + l then 10 else 11)"
    by (simp add: MonthFromTime_def Let_def d_def l_def)
  have D: "DateFromTime t =
     (if d < 31 then d + 1 else if d < 59 + l then d - 30 else if d < 90 + l then d - 58 - l
      else if d < 120 + l then d - 89 - l else if d < 151 + l then d - 119 - l
      else if d < 181 + l then d - 150 - l else if d < 212 + l then d - 180 - l
      else if d < 243 + l then d - 211 - l else if d < 273 + l then d - 242 - l
      else if d < 304 + l then d - 272 - l else if d < 334 + l then d - 303 - l
      else d - 333 - l)"
    unfolding DateFromTime_def Let_def M d_def[symmetric] l_def[symmetric] by simp
  show ?thesis unfolding D using b by auto
qed

lemma MakeDay_inverse:
  "MakeDay (YearFromTime t) (MonthFromTime t) (DateFromTime t) = Day t"
proof -
  define d where "d = DayWithinYear t"
  define l where "l = InLeapYear t"
  have M: "MonthFromTime t =
     (if d < 31 then 0 else if d < 59 + l then 1 else if d < 90 + l then 2
      else if d < 120 + l then 3 else if d < 151 + l then 4 else if d < 181 + l then 5
      else if d < 212 + l then 6 else if d < 243 + l then 7 else if d < 273 + l then 8
      else if d < 304 + l then 9 else if d < 334 + l then 10 else 11)"
    by (simp add: MonthFromTime_def Let_def d_def l_def)
  have D: "DateFromTime t =
     (if d < 31 then d + 1 else if d < 59 + l then d - 30 else if d < 90 + l then d - 58 - l
      else if d < 120 + l then d - 89 - l else if d < 151 + l then d - 119 - l
      else if d < 181 + l then d - 150 - l else if d < 212 + l then d - 180 - l
      else if d < 243 + l then d - 211 - l else if d < 273 + l then d - 242 - l
      else if d < 304 + l then d - 272 - l else if d < 334 + l then d - 303 - l
      else d - 333 - l)"
    unfolding DateFromTime_def Let_def M d_def[symmetric] l_def[symmetric] by simp
  have mb: "MonthFromTime t div 12 = 0" "MonthFromTime t mod 12 = MonthFromTime t"
    using MonthFromTime_bounds[of t] by simp_all
  have "days_before_month (MonthFromTime t) l + DateFromTime t - 1 = d"
    unfolding M D days_before_month_def by simp
  moreover have "(if DaysInYear (YearFromTime t) = 366 then 1 else 0) = l"
    by (simp add: l_def InLeapYear_def)
  ultimately show ?thesis
    by (simp add: MakeDay_def Let_def mb d_def DayWithinYear_def)
qed

lemma MakeTime_inverse:
  "MakeDate (Day t)
     (MakeTime (HourFromTime t) (MinFromTime t) (SecFromTime t) (msFromTime t)) = t"
proof -
  have a: "t mod 60000 = 1000 * (t div 1000 mod 60) + t mod 1000"
    using zmod_zmult2_eq[of 60 t 1000] by simp
  have b: "t mod 3600000 = 60000 * (t div 60000 mod 60) + t mod 60000"
    using zmod_zmult2_eq[of 60 t 60000] by simp
  have c: "t mod 86400000 = 3600000 * (t div 3600000 mod 24) + t mod 3600000"
    using zmod_zmult2_eq[of 24 t 3600000] by simp
  have d: "t = 86400000 * (t div 86400000) + t mod 86400000" by simp
  show ?thesis
    unfolding MakeDate_def MakeTime_def Day_def msPerDay_def HourFromTime_def MinFromTime_def
      SecFromTime_def msFromTime_def
    using a b c d by linarith
qed

lemma Day_range:
  "is_time_value t \<Longrightarrow> - 100000000 \<le> Day t \<and> Day t \<le> 100000000"
proof -
  assume "is_time_value t"
  then have r: "- 8640000000000000 \<le> t" "t \<le> 8640000000000000"
    by (simp_all add: is_time_value_def)
  define d where "d = t div 86400000"
  have A: "86400000 * d \<le> t" "t - 86399999 \<le> 86400000 * d"
    using div_bounds[of 86400000 t] by (simp_all add: d_def)
  have "- 100000000 \<le> d \<and> d \<le> 100000000" using A r by linarith
  then show ?thesis by (simp add: Day_def msPerDay_def d_def)
qed

lemma YearFromTime_range:
  assumes "is_time_value t"
  shows "- 271822 \<le> YearFromTime t \<and> YearFromTime t \<le> 275760"
proof -
  define Y where "Y = YearFromTime t"
  define Y1 where "Y1 = Y + 1"
  have b: "DayFromYear Y \<le> Day t" "Day t < DayFromYear Y1"
    using YearFromTime_bounds[of t] by (simp_all add: Y_def Y1_def)
  have "146097 * Y - 287811596 \<le> 400 * DayFromYear Y"
    using DayFromYear_bounds[of Y] by simp
  moreover have "400 * DayFromYear Y1 \<le> 146097 * Y1 - 287810501"
    using DayFromYear_bounds[of Y1] by simp
  moreover have "Y1 = Y + 1" by (simp add: Y1_def)
  ultimately have "- 271822 \<le> Y \<and> Y \<le> 275760"
    using b Day_range[OF assms] by linarith
  then show ?thesis by (simp add: Y_def)
qed


lemma fixed_zero: "fixed k 0 = replicate k 0x30"
  by (induction k) (simp_all add: digit_def replicate_append_same)

lemma length_decimal: "n < 10 ^ k \<Longrightarrow> 0 < k \<Longrightarrow> length (decimal n) \<le> k"
proof (induction k arbitrary: n)
  case 0
  then show ?case by simp
next
  case (Suc k)
  show ?case
  proof (cases "n < 10")
    case True
    then show ?thesis by (simp add: decimal.simps)
  next
    case False
    then have k: "0 < k" using Suc.prems by (cases k) simp_all
    have "n div 10 < 10 ^ k" using Suc.prems by (simp add: less_mult_imp_div_less mult.commute)
    from Suc.IH[OF this k] False show ?thesis
      by (subst decimal.simps) simp
  qed
qed

lemma pad_fixed: "n < 10 ^ k \<Longrightarrow> 0 < k \<Longrightarrow> pad k n = fixed k n"
proof (induction k arbitrary: n)
  case 0
  then show ?case by simp
next
  case (Suc k)
  show ?case
  proof (cases "n < 10")
    case True
    then show ?thesis
      by (simp add: pad_def decimal.simps fixed_zero)
  next
    case False
    then have k: "0 < k" using Suc.prems by (cases k) simp_all
    have lt: "n div 10 < 10 ^ k" using Suc.prems by (simp add: less_mult_imp_div_less mult.commute)
    have d: "decimal n = decimal (n div 10) @ [digit (n mod 10)]"
      using False by (subst decimal.simps) simp
    from Suc.IH[OF lt k] show ?thesis
      by (simp add: pad_def d)
  qed
qed

lemma digit_val_digit: "d < 10 \<Longrightarrow> digit_val (digit d) = Some d"
proof -
  assume "d < 10"
  then have "d \<in> {0, 1, 2, 3, 4, 5, 6, 7, 8, 9}"
    by simp arith
  then show ?thesis
    by (elim insertE emptyE) (simp_all add: digit_val_def digit_def)
qed

lemma digit_not_sign: "d < 10 \<Longrightarrow> digit d \<noteq> 0x2B \<and> digit d \<noteq> 0x2D"
proof -
  assume "d < 10"
  then have "d \<in> {0, 1, 2, 3, 4, 5, 6, 7, 8, 9}"
    by simp arith
  then show ?thesis
    by (elim insertE emptyE) (simp_all add: digit_def)
qed

lemma parse_digits_append:
  "parse_digits a (xs @ ys) =
     (case parse_digits a xs of None \<Rightarrow> None | Some b \<Rightarrow> parse_digits b ys)"
  by (induction xs arbitrary: a) (simp_all split: option.splits)

lemma parse_digits_fixed: "parse_digits a (fixed k n) = Some (a * 10 ^ k + n mod 10 ^ k)"
proof (induction k arbitrary: n)
  case 0
  show ?case by simp
next
  case (Suc k)
  have m: "n mod (10 * 10 ^ k) = 10 * (n div 10 mod 10 ^ k) + n mod 10"
    by (rule mod_mult2_eq)
  show ?case
    by (simp add: parse_digits_append Suc.IH digit_val_digit m algebra_simps)
qed

lemma parse_digits_pad:
  "n < 10 ^ k \<Longrightarrow> 0 < k \<Longrightarrow> parse_digits 0 (pad k n) = Some n"
  by (simp add: pad_fixed parse_digits_fixed)

lemma length_pad: "n < 10 ^ k \<Longrightarrow> 0 < k \<Longrightarrow> length (pad k n) = k"
proof -
  have "length (fixed k m) = k" for m by (induction k arbitrary: m) simp_all
  then show "n < 10 ^ k \<Longrightarrow> 0 < k \<Longrightarrow> length (pad k n) = k" by (simp add: pad_fixed)
qed


lemma parse_date_time_blocks:
  assumes "length M = 2" "length D = 2" "length H = 2" "length Mi = 2" "length S = 2"
    "length Ms = 3"
  shows "parse_date_time neg ys
           (0x2D # M @ 0x2D # D @ 0x54 # H @ 0x3A # Mi @ 0x3A # S @ 0x2E # Ms @ [0x5A]) =
         (case those [parse_digits 0 ys, parse_digits 0 M, parse_digits 0 D, parse_digits 0 H,
                      parse_digits 0 Mi, parse_digits 0 S, parse_digits 0 Ms] of
            Some [y, mo, d, h, mi, s, ms] \<Rightarrow>
              if 1 \<le> mo \<and> mo \<le> 12 \<and> 1 \<le> d \<and> d \<le> 31 \<and>
                 (h < 24 \<or> (h = 24 \<and> mi = 0 \<and> s = 0 \<and> ms = 0)) \<and>
                 mi \<le> 59 \<and> s \<le> 59 \<and> \<not> (neg \<and> y = 0)
              then TimeClip
                     (MakeDate
                        (MakeDay (if neg then - int y else int y) (int mo - 1) (int d))
                        (MakeTime (int h) (int mi) (int s) (int ms)))
              else None
          | _ \<Rightarrow> None)"
proof -
  obtain m1 m2 where M: "M = [m1, m2]"
    using assms(1) by (auto simp add: numeral_2_eq_2 length_Suc_conv)
  obtain d1 d2 where D: "D = [d1, d2]"
    using assms(2) by (auto simp add: numeral_2_eq_2 length_Suc_conv)
  obtain h1 h2 where H: "H = [h1, h2]"
    using assms(3) by (auto simp add: numeral_2_eq_2 length_Suc_conv)
  obtain i1 i2 where Mi: "Mi = [i1, i2]"
    using assms(4) by (auto simp add: numeral_2_eq_2 length_Suc_conv)
  obtain s1 s2 where S: "S = [s1, s2]"
    using assms(5) by (auto simp add: numeral_2_eq_2 length_Suc_conv)
  obtain f1 f2 f3 where Ms: "Ms = [f1, f2, f3]"
    using assms(6) by (auto simp add: numeral_3_eq_3 length_Suc_conv)
  show ?thesis
    unfolding parse_date_time_def M D H Mi S Ms by simp
qed

lemma Date_parse_unsigned:
  assumes "length ys = 4" "hd ys \<noteq> 0x2B" "hd ys \<noteq> 0x2D"
  shows "Date_parse (ys @ rest) = parse_date_time False ys rest"
proof -
  obtain y1 ys' where ys: "ys = y1 # ys'" using assms(1) by (cases ys) auto
  with assms show ?thesis by (simp add: Date_parse_def)
qed

lemma Date_parse_signed:
  assumes "length ys = 6" "c = 0x2B \<or> c = 0x2D"
  shows "Date_parse (c # ys @ rest) = parse_date_time (c = 0x2D) ys rest"
  using assms by (auto simp add: Date_parse_def)

lemma hd_pad: "n < 10 ^ k \<Longrightarrow> 0 < k \<Longrightarrow> \<exists>d < 10. hd (pad k n) = digit d"
proof -
  have "0 < k \<Longrightarrow> \<exists>d < 10. hd (fixed k m) = digit d" for m
  proof (induction k arbitrary: m)
    case 0
    then show ?case by simp
  next
    case (Suc k)
    show ?case
    proof (cases k)
      case 0
      then show ?thesis by (auto intro!: exI[of _ "m mod 10"])
    next
      case (Suc j)
      then have "0 < k" by simp
      from Suc.IH[OF this, of "m div 10"] obtain d where "d < 10" "hd (fixed k (m div 10)) = digit d"
        by auto
      moreover have "fixed k (m div 10) \<noteq> []" using Suc by simp
      ultimately show ?thesis by (auto simp add: hd_append)
    qed
  qed
  then show "n < 10 ^ k \<Longrightarrow> 0 < k \<Longrightarrow> \<exists>d < 10. hd (pad k n) = digit d"
    by (simp add: pad_fixed)
qed

lemma time_field_bounds:
  "0 \<le> HourFromTime t \<and> HourFromTime t < 24 \<and> 0 \<le> MinFromTime t \<and> MinFromTime t < 60 \<and>
   0 \<le> SecFromTime t \<and> SecFromTime t < 60 \<and> 0 \<le> msFromTime t \<and> msFromTime t < 1000"
  by (simp add: HourFromTime_def MinFromTime_def SecFromTime_def msFromTime_def)

lemma nat_lt_pow: "0 \<le> x \<Longrightarrow> x < 10 ^ k \<Longrightarrow> nat x < 10 ^ k"
  by (simp add: nat_less_iff)

lemma pad_int:
  assumes "0 \<le> x" "x < 10 ^ k" "0 < k"
  shows "length (pad k (nat x)) = k" "parse_digits 0 (pad k (nat x)) = Some (nat x)"
  using nat_lt_pow[OF assms(1,2)] assms(3) by (simp_all add: length_pad parse_digits_pad)

lemma parse_date_time_iso:
  assumes "is_time_value t" "parse_digits 0 ys = Some y" "\<not> (neg \<and> y = 0)"
    "(if neg then - int y else int y) = YearFromTime t"
  shows "parse_date_time neg ys
           (0x2D # pad 2 (nat (MonthFromTime t + 1)) @
            0x2D # pad 2 (nat (DateFromTime t)) @
            0x54 # pad 2 (nat (HourFromTime t)) @
            0x3A # pad 2 (nat (MinFromTime t)) @
            0x3A # pad 2 (nat (SecFromTime t)) @
            0x2E # pad 3 (nat (msFromTime t)) @ [0x5A]) = Some t"
proof -
  note mb = MonthFromTime_bounds[of t] and db = DateFromTime_bounds[of t]
    and tb = time_field_bounds[of t]
  have mo: "length (pad 2 (nat (MonthFromTime t + 1))) = 2"
    "parse_digits 0 (pad 2 (nat (MonthFromTime t + 1))) = Some (nat (MonthFromTime t + 1))"
    using mb by (simp_all add: pad_int)
  have da: "length (pad 2 (nat (DateFromTime t))) = 2"
    "parse_digits 0 (pad 2 (nat (DateFromTime t))) = Some (nat (DateFromTime t))"
    using db by (simp_all add: pad_int)
  have ho: "length (pad 2 (nat (HourFromTime t))) = 2"
    "parse_digits 0 (pad 2 (nat (HourFromTime t))) = Some (nat (HourFromTime t))"
    using tb by (simp_all add: pad_int)
  have mi: "length (pad 2 (nat (MinFromTime t))) = 2"
    "parse_digits 0 (pad 2 (nat (MinFromTime t))) = Some (nat (MinFromTime t))"
    using tb by (simp_all add: pad_int)
  have se: "length (pad 2 (nat (SecFromTime t))) = 2"
    "parse_digits 0 (pad 2 (nat (SecFromTime t))) = Some (nat (SecFromTime t))"
    using tb by (simp_all add: pad_int)
  have ms: "length (pad 3 (nat (msFromTime t))) = 3"
    "parse_digits 0 (pad 3 (nat (msFromTime t))) = Some (nat (msFromTime t))"
    using tb by (simp_all add: pad_int)
  have "TimeClip
          (MakeDate (MakeDay (YearFromTime t) (MonthFromTime t) (DateFromTime t))
             (MakeTime (HourFromTime t) (MinFromTime t) (SecFromTime t) (msFromTime t))) = Some t"
    using assms(1) by (simp add: MakeDay_inverse MakeTime_inverse TimeClip_def)
  moreover have c: "1 \<le> nat (MonthFromTime t + 1)" "nat (MonthFromTime t + 1) \<le> 12"
    "1 \<le> nat (DateFromTime t)" "nat (DateFromTime t) \<le> 31" "nat (HourFromTime t) < 24"
    "nat (MinFromTime t) \<le> 59" "nat (SecFromTime t) \<le> 59"
    using mb db tb by linarith+
  moreover have i: "int (nat (MonthFromTime t + 1)) - 1 = MonthFromTime t"
    "int (nat (DateFromTime t)) = DateFromTime t" "int (nat (HourFromTime t)) = HourFromTime t"
    "int (nat (MinFromTime t)) = MinFromTime t" "int (nat (SecFromTime t)) = SecFromTime t"
    "int (nat (msFromTime t)) = msFromTime t"
    using mb db tb by simp_all
  ultimately show ?thesis
    unfolding parse_date_time_blocks[OF mo(1) da(1) ho(1) mi(1) se(1) ms(1)]
      mo(2) da(2) ho(2) mi(2) se(2) ms(2) assms(2)
    using assms(3,4) by (simp del: of_nat_add)
qed

lemma Date_parse_iso_string:
  assumes "is_time_value t"
  shows "Date_parse (iso_string t) = Some t"
proof -
  define Y where "Y = YearFromTime t"
  define rest where "rest =
     0x2D # pad 2 (nat (MonthFromTime t + 1)) @
     0x2D # pad 2 (nat (DateFromTime t)) @
     0x54 # pad 2 (nat (HourFromTime t)) @
     0x3A # pad 2 (nat (MinFromTime t)) @
     0x3A # pad 2 (nat (SecFromTime t)) @
     0x2E # pad 3 (nat (msFromTime t)) @ [0x5A]"
  have iso: "iso_string t = year_string Y @ rest"
    by (simp add: iso_string_def Y_def rest_def)
  have yr: "- 271822 \<le> Y" "Y \<le> 275760"
    using YearFromTime_range[OF assms] by (simp_all add: Y_def)
  show ?thesis
  proof (cases "0 \<le> Y \<and> Y \<le> 9999")
    case True
    then have p: "length (pad 4 (nat Y)) = 4" "parse_digits 0 (pad 4 (nat Y)) = Some (nat Y)"
      by (simp_all add: pad_int)
    have "nat Y < 10 ^ 4" using True by (intro nat_lt_pow) simp_all
    then obtain d where d: "d < 10" "hd (pad 4 (nat Y)) = digit d"
      using hd_pad[of "nat Y" 4] by auto
    have "Date_parse (pad 4 (nat Y) @ rest) = parse_date_time False (pad 4 (nat Y)) rest"
      using digit_not_sign[OF d(1)] d(2) p(1) by (intro Date_parse_unsigned) simp_all
    also have "\<dots> = Some t"
      unfolding rest_def using True
      by (intro parse_date_time_iso[OF assms p(2)]) (simp_all add: Y_def)
    finally show ?thesis using True by (simp add: iso year_string_def)
  next
    case False
    show ?thesis
    proof (cases "0 \<le> Y")
      case True
      with False yr have p: "length (pad 6 (nat Y)) = 6"
        "parse_digits 0 (pad 6 (nat Y)) = Some (nat Y)"
        by (simp_all add: pad_int)
      have "Date_parse (0x2B # pad 6 (nat Y) @ rest) =
            parse_date_time (0x2B = (0x2D :: 16 word)) (pad 6 (nat Y)) rest"
        using p(1) by (intro Date_parse_signed) simp_all
      also have "\<dots> = parse_date_time False (pad 6 (nat Y)) rest" by simp
      also have "\<dots> = Some t"
        unfolding rest_def using True
        by (intro parse_date_time_iso[OF assms p(2)]) (simp_all add: Y_def)
      finally show ?thesis using True False by (simp add: iso year_string_def)
    next
      case neg: False
      with yr have p: "length (pad 6 (nat (- Y))) = 6"
        "parse_digits 0 (pad 6 (nat (- Y))) = Some (nat (- Y))"
        by (simp_all add: pad_int)
      have "Date_parse (0x2D # pad 6 (nat (- Y)) @ rest) =
            parse_date_time (0x2D = (0x2D :: 16 word)) (pad 6 (nat (- Y))) rest"
        using p(1) by (intro Date_parse_signed) simp_all
      also have "\<dots> = parse_date_time True (pad 6 (nat (- Y))) rest" by simp
      also have "\<dots> = Some t"
        unfolding rest_def using neg
        by (intro parse_date_time_iso[OF assms p(2)]) (simp_all add: Y_def)
      finally show ?thesis using neg by (simp add: iso year_string_def)
    qed
  qed
qed


lemma YearFromTime_unique:
  assumes "DayFromYear y \<le> Day t" "Day t < DayFromYear (y + 1)"
  shows "YearFromTime t = y"
proof -
  have "y \<le> YearFromTime t"
    using assms(1) by (simp add: YearFromTime_largest[symmetric] TimeFromYear_le)
  moreover have "\<not> y + 1 \<le> YearFromTime t"
    using assms(2) by (simp add: YearFromTime_largest[symmetric] TimeFromYear_le)
  ultimately show ?thesis by simp
qed

text \<open>
  \<open>MakeDay\<close> as computed above is the standard's: for a month number from 0 to 11 the
  day it yields for date 1 lies in the given year and month and is the first of the
  month, and any other date is counted from there.
\<close>

lemma MakeDay_first_of_month:
  assumes "0 \<le> mn" "mn \<le> 11" "t = msPerDay * MakeDay ym mn 1"
  shows "YearFromTime t = ym \<and> MonthFromTime t = mn \<and> DateFromTime t = 1 \<and>
         MakeDay ym mn dt = Day t + dt - 1"
proof -
  note t_def = assms(3)
  define l :: int where "l = (if DaysInYear ym = 366 then 1 else 0)"
  define b where "b = days_before_month mn l"
  have mm: "mn div 12 = 0" "mn mod 12 = mn" using assms(1,2) by simp_all
  have md: "MakeDay ym mn d = DayFromYear ym + b + d - 1" for d
    by (simp add: MakeDay_def Let_def mm b_def l_def)
  have day: "Day t = DayFromYear ym + b"
    by (simp add: t_def md Day_def msPerDay_def)
  have diy: "DaysInYear ym = 365 + l"
    using DaysInYear_cases[of ym] by (auto simp add: l_def)
  have l01: "l = 0 \<or> l = 1" by (simp add: l_def)
  have mc: "mn = 0 \<or> mn = 1 \<or> mn = 2 \<or> mn = 3 \<or> mn = 4 \<or> mn = 5 \<or> mn = 6 \<or> mn = 7 \<or>
            mn = 8 \<or> mn = 9 \<or> mn = 10 \<or> mn = 11"
    using assms(1,2) by presburger
  have lb: "0 \<le> l" "l \<le> 1" by (simp_all add: l_def)
  have bb: "0 \<le> b" "b < 365 + l"
    using mc lb by (elim disjE; simp add: b_def days_before_month_def)+
  have Y: "YearFromTime t = ym"
    using bb by (intro YearFromTime_unique) (simp_all add: day DayFromYear_step diy)
  have L: "InLeapYear t = l" by (simp add: InLeapYear_def Y l_def)
  have W: "DayWithinYear t = b" by (simp add: DayWithinYear_def Y day)
  have M: "MonthFromTime t = mn"
    unfolding MonthFromTime_def Let_def L W b_def
    using mc lb by (elim disjE; simp add: days_before_month_def)
  have D: "DateFromTime t = 1"
    unfolding DateFromTime_def Let_def L W M b_def
    using mc by (elim disjE; simp add: days_before_month_def)
  show ?thesis using Y M D by (simp add: md day)
qed

text \<open>
  Renderings: the example of the repository's README, and the instants on both sides of
  the years 9999 and 0, where the format changes between four digits and a sign with six
  digits. Then a string with a quote, a backslash, a line feed, a control character and
  an unpaired surrogate, quoted.
\<close>

lemma iso_string_examples:
  "iso_string 1753543616168 = str ''2025-07-26T15:26:56.168Z''"
  "iso_string 253402300799999 = str ''9999-12-31T23:59:59.999Z''"
  "iso_string 253402300800000 = str ''+010000-01-01T00:00:00.000Z''"
  "iso_string (- 62167219200001) = str ''-000001-12-31T23:59:59.999Z''"
  by (simp_all add: iso_string_def year_string_def YearFromTime_def Day_def msPerDay_def
      TimeFromYear_def DayFromYear_def MonthFromTime_def DateFromTime_def DayWithinYear_def
      InLeapYear_def DaysInYear_def HourFromTime_def MinFromTime_def SecFromTime_def
      msFromTime_def pad_def decimal.simps digit_def str_def Let_def)
     (simp_all add: eval_nat_numeral)

lemma QuoteJSONString_example:
  "QuoteJSONString [0x61, 0x22, 0x5C, 0x0A, 0x01, 0xD800] =
     [0x22, 0x61, 0x5C, 0x22, 0x5C, 0x5C, 0x5C, 0x6E] @
     [0x5C, 0x75, 0x30, 0x30, 0x30, 0x31] @ [0x5C, 0x75, 0x64, 0x38, 0x30, 0x30] @ [0x22]"
  by (simp add: QuoteJSONString_def escape_table_def UnicodeEscape_def hexdigit_def
      is_leading_surrogate_def is_trailing_surrogate_def)

section \<open>Properties of the handler\<close>

text \<open>
  The handler has two outcomes. When the clock reading is a time value it returns the
  envelope; otherwise the date is invalid and the promise is rejected with the
  \<open>RangeError\<close> of \<open>toISOString\<close>.
\<close>

lemma main_returns:
  "is_time_value now \<Longrightarrow>
   main request process_env now =
     Inr \<lparr> statusCode = 200,
           headers =
             [(str ''Content-Type'', str ''application/json''),
              (str ''Access-Control-Allow-Origin'', str ''*''),
              (str ''Access-Control-Allow-Headers'', str ''Content-Type''),
              (str ''Access-Control-Allow-Methods'', str ''OPTIONS,POST,GET'')],
           body =
             JSON_stringify
               [(str ''message'',
                 str ''Hello World from serverless starter template! Jayvee''),
                (str ''timestamp'', iso_string now),
                (str ''stage'', or_default (process_env (str ''STAGE'')) (str ''dev''))] \<rparr>"
  by (simp add: main_def toISOString_def new_Date_def TimeClip_def)

lemma main_throws:
  "\<not> is_time_value now \<Longrightarrow> main request process_env now = Inl RangeError"
  by (simp add: main_def toISOString_def new_Date_def TimeClip_def)

lemma main_Inr_iff:
  "(\<exists>r. main request process_env now = Inr r) \<longleftrightarrow> is_time_value now"
  by (cases "is_time_value now") (simp_all add: main_returns main_throws)

lemma time_value_example: "is_time_value 1753543616168"
  by (simp add: is_time_value_def)

text \<open>The whole body for an empty environment at the instant of the README's example.\<close>

lemma body_example:
  \<open>map_sum id body (main () Map.empty 1753543616168) =
   Inr (str ''{"message":"Hello World from serverless starter template! Jayvee","timestamp":"2025-07-26T15:26:56.168Z","stage":"dev"}'')\<close>
  by (simp add: main_returns time_value_example iso_string_examples(1) JSON_stringify_def
      member_def QuoteJSONString_def or_default_def)
     (simp add: str_def escape_table_def is_leading_surrogate_def is_trailing_surrogate_def)

text \<open>
  C5. Whatever the request and the environment, at every clock reading that is a time
  value the handler returns an envelope whose \<open>statusCode\<close> is 200; and at any clock
  reading whatever, an envelope that is returned has \<open>statusCode\<close> 200.
\<close>

theorem C5_statusCode_200:
  "(is_time_value now \<longrightarrow>
      (\<exists>r. main request process_env now = Inr r \<and> statusCode r = 200)) \<and>
   (\<forall>r. main request process_env now = Inr r \<longrightarrow> statusCode r = 200)"
  by (cases "is_time_value now") (auto simp add: main_returns main_throws)

theorem C5_statusCode_200_witness:
  "is_time_value 1753543616168 \<and>
   (\<exists>r. main () Map.empty 1753543616168 = Inr r \<and> statusCode r = 200)"
  using C5_statusCode_200 [of 1753543616168 "()" Map.empty]
  by (simp add: is_time_value_def)

text \<open>
  C4. At every clock reading that is a time value, the returned \<open>headers\<close> object
  holds exactly the four pairs of the source, in the order written: as a mapping it has
  these four keys and no other, each with its value.
\<close>

theorem C4_headers_exact:
  assumes "is_time_value now"
  shows "\<exists>r. main request process_env now = Inr r \<and>
     headers r =
       [(str ''Content-Type'', str ''application/json''),
        (str ''Access-Control-Allow-Origin'', str ''*''),
        (str ''Access-Control-Allow-Headers'', str ''Content-Type''),
        (str ''Access-Control-Allow-Methods'', str ''OPTIONS,POST,GET'')] \<and>
     distinct (map fst (headers r)) \<and>
     dom (map_of (headers r)) =
       {str ''Content-Type'', str ''Access-Control-Allow-Origin'',
        str ''Access-Control-Allow-Headers'', str ''Access-Control-Allow-Methods''} \<and>
     map_of (headers r) (str ''Content-Type'') = Some (str ''application/json'') \<and>
     map_of (headers r) (str ''Access-Control-Allow-Origin'') = Some (str ''*'') \<and>
     map_of (headers r) (str ''Access-Control-Allow-Headers'') = Some (str ''Content-Type'') \<and>
     map_of (headers r) (str ''Access-Control-Allow-Methods'') = Some (str ''OPTIONS,POST,GET'')"
  unfolding main_returns [OF assms] by (simp add: str_def dom_def) blast

theorem C4_headers_exact_witness:
  "is_time_value 1753543616168 \<and>
   (\<exists>r. main () Map.empty 1753543616168 = Inr r \<and>
     headers r =
       [(str ''Content-Type'', str ''application/json''),
        (str ''Access-Control-Allow-Origin'', str ''*''),
        (str ''Access-Control-Allow-Headers'', str ''Content-Type''),
        (str ''Access-Control-Allow-Methods'', str ''OPTIONS,POST,GET'')] \<and>
     length (headers r) = 4)"
proof -
  have t: "is_time_value 1753543616168" by (simp add: is_time_value_def)
  from C4_headers_exact [OF t, of "()" Map.empty]
  obtain r where "main () Map.empty 1753543616168 = Inr r"
    and "headers r =
       [(str ''Content-Type'', str ''application/json''),
        (str ''Access-Control-Allow-Origin'', str ''*''),
        (str ''Access-Control-Allow-Headers'', str ''Content-Type''),
        (str ''Access-Control-Allow-Methods'', str ''OPTIONS,POST,GET'')]"
    by blast
  then have "\<exists>r. main () Map.empty 1753543616168 = Inr r \<and>
     headers r =
       [(str ''Content-Type'', str ''application/json''),
        (str ''Access-Control-Allow-Origin'', str ''*''),
        (str ''Access-Control-Allow-Headers'', str ''Content-Type''),
        (str ''Access-Control-Allow-Methods'', str ''OPTIONS,POST,GET'')] \<and>
     length (headers r) = 4"
    by simp
  with t show ?thesis by simp
qed

text \<open>
  C7, as claimed: the handler returns an envelope and never throws, at every clock
  reading. This fails: one millisecond past the largest time value the date is invalid
  and the handler throws the \<open>RangeError\<close> of \<open>toISOString\<close>.
\<close>

theorem C7_total_counterexample:
  "main () Map.empty 8640000000000001 = Inl RangeError"
  by (simp add: main_throws is_time_value_def)

text \<open>
  C7, amended. The handler is total on the clock readings that are time values: for
  every request, every environment (\<open>STAGE\<close> bound to a string, to the empty string,
  or unbound) and every clock reading within 8.64e15 ms of the epoch it fulfils its
  promise with an envelope and does not throw.
\<close>

theorem C7_total_on_time_values:
  assumes "is_time_value now"
  shows "(\<exists>r. main request process_env now = Inr r) \<and>
         (\<forall>e. main request process_env now \<noteq> Inl e)"
  by (simp add: main_returns [OF assms])

theorem C7_total_on_time_values_witness:
  "is_time_value 8640000000000000 \<and> is_time_value (- 8640000000000000) \<and>
   (\<exists>r. main () Map.empty 8640000000000000 = Inr r) \<and>
   (\<exists>r. main () [str ''STAGE'' \<mapsto> []] (- 8640000000000000) = Inr r) \<and>
   main () Map.empty 8640000000000000 \<noteq> Inl RangeError"
  using C7_total_on_time_values [of 8640000000000000 "()" Map.empty]
    C7_total_on_time_values [of "- 8640000000000000" "()" "[str ''STAGE'' \<mapsto> []]"]
  by (simp add: is_time_value_def)

text \<open>
  C8. The request is not inspected: two invocations with any two requests (of any
  types) have the same outcome whenever the two environments agree on \<open>STAGE\<close> and
  the clock reads the same; in particular under the same environment.
\<close>

theorem C8_request_ignored:
  assumes "process_env1 (str ''STAGE'') = process_env2 (str ''STAGE'')"
  shows "main request1 process_env1 now = main request2 process_env2 now"
  by (cases "is_time_value now") (simp_all add: main_returns main_throws assms)

theorem C8_request_ignored_witness:
  "[str ''STAGE'' \<mapsto> str ''prod''] (str ''STAGE'') =
     [str ''OTHER'' \<mapsto> str ''x'', str ''STAGE'' \<mapsto> str ''prod''] (str ''STAGE'') \<and>
   main (1::nat) [str ''STAGE'' \<mapsto> str ''prod''] 1753543616168 =
     main ''GET /test'' [str ''OTHER'' \<mapsto> str ''x'', str ''STAGE'' \<mapsto> str ''prod'']
       1753543616168"
  using C8_request_ignored [of "[str ''STAGE'' \<mapsto> str ''prod'']"
      "[str ''OTHER'' \<mapsto> str ''x'', str ''STAGE'' \<mapsto> str ''prod'']"
      "1::nat" 1753543616168 "''GET /test''"]
  by simp

lemma decoded_main:
  "is_time_value now \<Longrightarrow>
   decoded (main request process_env now) =
     Some [(str ''message'', str ''Hello World from serverless starter template! Jayvee''),
           (str ''timestamp'', iso_string now),
           (str ''stage'', or_default (process_env (str ''STAGE'')) (str ''dev''))]"
  by (simp add: decoded_def main_returns JSON_parse_stringify)

lemma decoded_throws:
  "\<not> is_time_value now \<Longrightarrow> decoded_field (main request process_env now) k = None"
  by (simp add: decoded_field_def decoded_def main_throws)

lemma decoded_message:
  "is_time_value now \<Longrightarrow>
   decoded_field (main request process_env now) (str ''message'') =
     Some (str ''Hello World from serverless starter template! Jayvee'')"
  by (simp add: decoded_field_def decoded_main get_field_def str_def)

lemma decoded_timestamp:
  "is_time_value now \<Longrightarrow>
   decoded_field (main request process_env now) (str ''timestamp'') = Some (iso_string now)"
  by (simp add: decoded_field_def decoded_main get_field_def str_def)

lemma decoded_stage:
  "is_time_value now \<Longrightarrow>
   decoded_field (main request process_env now) (str ''stage'') =
     Some (or_default (process_env (str ''STAGE'')) (str ''dev''))"
  by (simp add: decoded_field_def decoded_main get_field_def str_def)

text \<open>
  C1. The claim says the decoded \<open>message\<close> is
  \<^verbatim>\<open>Hello World from serverless starter template!\<close>. At every clock reading that
  is a time value the code returns that text followed by \<^verbatim>\<open> Jayvee\<close>, and at no
  clock reading is the decoded \<open>message\<close> the claimed string.
\<close>

theorem C1_message_has_suffix:
  "(is_time_value now \<longrightarrow>
      decoded_field (main request process_env now) (str ''message'') =
        Some (str ''Hello World from serverless starter template!'' @ str '' Jayvee'')) \<and>
   decoded_field (main request process_env now) (str ''message'') \<noteq>
     Some (str ''Hello World from serverless starter template!'')"
proof (cases "is_time_value now")
  case True
  then show ?thesis by (simp add: decoded_message) (simp add: str_def)
next
  case False
  then show ?thesis by (simp add: decoded_throws)
qed

theorem C1_message_has_suffix_witness:
  "is_time_value 1753543616168 \<and>
   decoded_field (main () Map.empty 1753543616168) (str ''message'') =
     Some (str ''Hello World from serverless starter template!'' @ str '' Jayvee'') \<and>
   decoded_field (main () Map.empty 1753543616168) (str ''message'') \<noteq>
     Some (str ''Hello World from serverless starter template!'')"
proof -
  have t: "is_time_value 1753543616168" by (simp add: is_time_value_def)
  from C1_message_has_suffix [of 1753543616168 "()" Map.empty] t
  have "decoded_field (main () Map.empty 1753543616168) (str ''message'') =
     Some (str ''Hello World from serverless starter template!'' @ str '' Jayvee'')"
    and "decoded_field (main () Map.empty 1753543616168) (str ''message'') \<noteq>
     Some (str ''Hello World from serverless starter template!'')"
    by blast+
  with t show ?thesis by blast
qed

text \<open>
  C2. When \<open>STAGE\<close> is unbound or bound to the empty string, at every clock reading
  that is a time value the decoded \<open>stage\<close> is \<^verbatim>\<open>dev\<close>.
\<close>

theorem C2_stage_default:
  assumes "is_time_value now"
    and "process_env (str ''STAGE'') = None \<or> process_env (str ''STAGE'') = Some []"
  shows "decoded_field (main request process_env now) (str ''stage'') = Some (str ''dev'')"
  using assms(2) unfolding decoded_stage [OF assms(1)] by (auto simp add: or_default_def)

theorem C2_stage_default_witness:
  "is_time_value 1753543616168 \<and>
   (Map.empty (str ''STAGE'') = None \<or> Map.empty (str ''STAGE'') = Some []) \<and>
   decoded_field (main () Map.empty 1753543616168) (str ''stage'') = Some (str ''dev'') \<and>
   ([str ''STAGE'' \<mapsto> []] (str ''STAGE'') = None \<or>
    [str ''STAGE'' \<mapsto> []] (str ''STAGE'') = Some []) \<and>
   decoded_field (main () [str ''STAGE'' \<mapsto> []] 1753543616168) (str ''stage'') =
     Some (str ''dev'')"
  using C2_stage_default [of 1753543616168 Map.empty "()"]
    C2_stage_default [of 1753543616168 "[str ''STAGE'' \<mapsto> []]" "()"]
  by (simp add: is_time_value_def)

text \<open>
  C3. At every clock reading that is a time value: when \<open>STAGE\<close> is bound to a
  non-empty string \<open>S\<close>, the decoded \<open>stage\<close> is \<open>S\<close>, code unit for code unit; and
  under every environment the decoded \<open>stage\<close> is a string (never null or missing)
  and is not empty.
\<close>

theorem C3_stage_from_env:
  assumes "is_time_value now"
  shows "(process_env (str ''STAGE'') = Some S \<and> S \<noteq> [] \<longrightarrow>
      decoded_field (main request process_env now) (str ''stage'') = Some S) \<and>
   (\<exists>v. decoded_field (main request process_env now) (str ''stage'') = Some v \<and> v \<noteq> [])"
  unfolding decoded_stage [OF assms]
  by (auto simp add: or_default_def str_def split: option.splits)

theorem C3_stage_from_env_witness:
  "is_time_value 1753543616168 \<and>
   [str ''STAGE'' \<mapsto> str ''prod''] (str ''STAGE'') = Some (str ''prod'') \<and>
   str ''prod'' \<noteq> [] \<and>
   decoded_field (main () [str ''STAGE'' \<mapsto> str ''prod''] 1753543616168) (str ''stage'') =
     Some (str ''prod'')"
  using C3_stage_from_env [of 1753543616168 "[str ''STAGE'' \<mapsto> str ''prod'']"
      "str ''prod''" "()"]
  by (simp add: str_def is_time_value_def)

text \<open>
  C6. At every clock reading that is a time value, the body decodes to an object with
  exactly the members \<open>message\<close>, \<open>timestamp\<close>, \<open>stage\<close>, in this order, and the body
  string begins with the opening brace and ends with the closing brace: no white space
  follows it.
\<close>

theorem C6_body_keys:
  assumes "is_time_value now"
  shows "\<exists>r obj. main request process_env now = Inr r \<and>
     JSON_parse (body r) = Some obj \<and>
     map fst obj = [str ''message'', str ''timestamp'', str ''stage''] \<and>
     distinct (map fst obj) \<and>
     body r \<noteq> [] \<and> hd (body r) = 0x7B \<and> last (body r) = 0x7D \<and>
     \<not> is_ws (last (body r))"
  unfolding main_returns [OF assms]
  by (simp add: JSON_parse_stringify) (simp add: JSON_stringify_def is_ws_def str_def)

theorem C6_body_keys_witness:
  "is_time_value 1753543616168 \<and>
   (\<exists>r obj. main () Map.empty 1753543616168 = Inr r \<and>
     JSON_parse (body r) = Some obj \<and>
     map fst obj = [str ''message'', str ''timestamp'', str ''stage''] \<and>
     last (body r) = 0x7D)"
proof -
  have t: "is_time_value 1753543616168" by (simp add: is_time_value_def)
  from C6_body_keys [OF t, of "()" Map.empty]
  obtain r obj where a: "main () Map.empty 1753543616168 = Inr r"
    "JSON_parse (body r) = Some obj"
    "map fst obj = [str ''message'', str ''timestamp'', str ''stage'']"
    "last (body r) = 0x7D"
    by (elim exE conjE)
  have "\<exists>r obj. main () Map.empty 1753543616168 = Inr r \<and>
     JSON_parse (body r) = Some obj \<and>
     map fst obj = [str ''message'', str ''timestamp'', str ''stage''] \<and>
     last (body r) = 0x7D"
    using a by (intro exI [of _ r] exI [of _ obj] conjI)
  with t show ?thesis by (rule conjI)
qed

text \<open>
  C10. Serialization round trip: for every environment (so for every value of
  \<open>STAGE\<close>, whatever code units it holds: quotes, backslashes, control characters,
  unpaired surrogates) and every clock reading that is a time value, the body is
  accepted by the decoder, and the decoded object is the very object that was
  serialized: the message literal, the ISO rendering of the clock reading, and the
  stage value.
\<close>

theorem C10_body_round_trip:
  assumes "is_time_value now"
  shows "\<exists>r. main request process_env now = Inr r \<and>
     JSON_parse (body r) =
       Some [(str ''message'', str ''Hello World from serverless starter template! Jayvee''),
             (str ''timestamp'', iso_string now),
             (str ''stage'', or_default (process_env (str ''STAGE'')) (str ''dev''))]"
  unfolding main_returns [OF assms] by (simp add: JSON_parse_stringify)

theorem C10_body_round_trip_witness:
  "is_time_value 1753543616168 \<and>
   (\<exists>r. main () [str ''STAGE'' \<mapsto> [0x61, 0x22, 0x5C, 0x0A, 0x01, 0xD800]] 1753543616168 =
          Inr r \<and>
     JSON_parse (body r) =
       Some [(str ''message'', str ''Hello World from serverless starter template! Jayvee''),
             (str ''timestamp'', str ''2025-07-26T15:26:56.168Z''),
             (str ''stage'', [0x61, 0x22, 0x5C, 0x0A, 0x01, 0xD800])])"
  using C10_body_round_trip [of 1753543616168 "()"
      "[str ''STAGE'' \<mapsto> [0x61, 0x22, 0x5C, 0x0A, 0x01, 0xD800]]"]
  by (simp add: is_time_value_def or_default_def iso_string_examples(1))

text \<open>
  C9. The \<open>timestamp\<close> fields of two responses, decoded from their bodies and read
  back as instants by \<open>Date.parse\<close>, are ordered as the two clock readings are: when
  the second reading is not before the first, neither is the second timestamp. (Each
  timestamp reads back as the very clock reading it was rendered from, lemma
  \<open>Date_parse_iso_string\<close>.) The clock readings are time values.
\<close>

theorem C9_timestamp_monotone:
  assumes "is_time_value now1" "is_time_value now2" "now1 \<le> now2"
  shows "\<exists>ts1 ts2 i1 i2.
           decoded_field (main request1 process_env1 now1) (str ''timestamp'') = Some ts1 \<and>
           decoded_field (main request2 process_env2 now2) (str ''timestamp'') = Some ts2 \<and>
           Date_parse ts1 = Some i1 \<and> Date_parse ts2 = Some i2 \<and> i1 \<le> i2"
  using assms by (simp add: decoded_timestamp Date_parse_iso_string)

theorem C9_timestamp_monotone_witness:
  "is_time_value 253402300799999 \<and> is_time_value 253402300800000 \<and>
   (253402300799999 :: int) \<le> 253402300800000 \<and>
   (\<exists>ts1 ts2 i1 i2.
      decoded_field (main () Map.empty 253402300799999) (str ''timestamp'') = Some ts1 \<and>
      decoded_field (main () Map.empty 253402300800000) (str ''timestamp'') = Some ts2 \<and>
      Date_parse ts1 = Some i1 \<and> Date_parse ts2 = Some i2 \<and> i1 \<le> i2)"
  using C9_timestamp_monotone [of 253402300799999 253402300800000 "()" Map.empty "()" Map.empty]
  by (simp add: is_time_value_def)

end
